theory Spec2Isabelle
  imports Complex_Main
begin

section \<open>Data model\<close>

text \<open>
  The interfaces of \<^verbatim>\<open>types.ts\<close>: GraphNode, GraphLink, GraphData, GuardAnalysis
  and RedditPost. A node of the store carries none of the optional d3 properties
  (\<^verbatim>\<open>index\<close>, \<^verbatim>\<open>x\<close>, \<^verbatim>\<open>y\<close>, ...): d3 adds them to the copies the layout
  component makes, and they are modelled there. The links of the store name their
  endpoints by identity. Weights and timestamps are JavaScript numbers holding integers;
  they are \<^typ>\<open>int\<close> here. An absent optional field (\<^verbatim>\<open>undefined\<close> or
  \<^verbatim>\<open>null\<close>) is \<^const>\<open>None\<close>.
\<close>

datatype vote = Up | Down

datatype nodeType = Subreddit | Topic

record guardAnalysis =
  isProvocative :: bool
  reasoning :: string
  manipulationType :: "string option"

record redditPost =
  post_id :: string
  upvotes :: int
  comments :: int
  timestamp :: string
  title :: string
  subreddit :: string
  author :: string
  content :: string
  topicId :: string
  userVote :: "vote option"
  guardResult :: "guardAnalysis option"

record graphNode =
  node_id :: string
  node_type :: nodeType
  node_group :: int
  val :: int
  desc :: "string option"
  lastUpdated :: "int option"

record graphLink =
  source :: string
  target :: string
  link_value :: int

record graphData =
  nodes :: "graphNode list"
  links :: "graphLink list"

text \<open>
  The part of the \<^verbatim>\<open>App\<close> component's state that the handlers below touch
  (the \<^verbatim>\<open>useState\<close> cells \<^verbatim>\<open>graphData\<close>, \<^verbatim>\<open>posts\<close>,
  \<^verbatim>\<open>isLoadingPost\<close> and \<^verbatim>\<open>activePost\<close>). A handler is a function from the state
  it is called in to the state after its updates have been applied; the values a handler
  reads from its closure are those of the state it is called in.
\<close>

record appState =
  graphData :: graphData
  posts :: "redditPost list"
  isLoadingPost :: bool
  activePost :: "redditPost option"

section \<open>The interaction handler (\<^verbatim>\<open>handleInteraction\<close> of App.tsx)\<close>

datatype interaction = Upvote | Downvote | Click

text \<open>
  Step 1 of \<^verbatim>\<open>handleInteraction\<close>: from the kind of interaction and the vote the
  post carries, the pair \<^verbatim>\<open>(newVote, weightChange)\<close>.
\<close>

fun interactionOutcome :: "interaction \<Rightarrow> vote option \<Rightarrow> vote option \<times> int" where
  "interactionOutcome Click v = (v, 5)"
| "interactionOutcome Upvote v =
     (if v = Some Up then (None, - 25)
      else (Some Up, if v = Some Down then 45 else 25))"
| "interactionOutcome Downvote v =
     (if v = Some Down then (None, 20)
      else (Some Down, if v = Some Up then - 45 else - 20))"

text \<open>Step 2: the update of the feed (\<^verbatim>\<open>setPosts\<close>).\<close>

definition updatePostState :: "interaction \<Rightarrow> string \<Rightarrow> vote option \<Rightarrow> redditPost list \<Rightarrow> redditPost list" where
  "updatePostState ty postId newVote prevPosts =
     map (\<lambda>p. if post_id p \<noteq> postId then p
               else if ty = Click then p
               else p\<lparr>userVote := newVote\<rparr>) prevPosts"

text \<open>Step 3: the open detail view is kept in step when it shows the same post.\<close>

definition syncActivePost :: "interaction \<Rightarrow> string \<Rightarrow> vote option \<Rightarrow> redditPost option \<Rightarrow> redditPost option" where
  "syncActivePost ty postId newVote active =
     (case active of
        None \<Rightarrow> None
      | Some prev \<Rightarrow>
          if post_id prev = postId
          then (if ty = Click then Some prev else Some (prev\<lparr>userVote := newVote\<rparr>))
          else Some prev)"

text \<open>
  Step 4: the update of the graph (\<^verbatim>\<open>setGraphData\<close>), with the clamp
  \<^verbatim>\<open>Math.max(10, Math.min(180, node.val + weightChange))\<close> and the stamp
  \<^verbatim>\<open>lastUpdated: Date.now()\<close>. The clock reading is the parameter \<open>now\<close>.
\<close>

definition updateGraphData :: "int \<Rightarrow> string \<Rightarrow> int \<Rightarrow> graphData \<Rightarrow> graphData" where
  "updateGraphData now topic weightChange prevData =
     prevData\<lparr>nodes :=
       map (\<lambda>node. if node_id node = topic
                    then node\<lparr>val := max 10 (min 180 (val node + weightChange)),
                              lastUpdated := Some now\<rparr>
                    else node) (nodes prevData)\<rparr>"

definition handleInteraction :: "int \<Rightarrow> interaction \<Rightarrow> string \<Rightarrow> string \<Rightarrow> appState \<Rightarrow> appState" where
  "handleInteraction now ty topic postId st =
     (case find (\<lambda>p. post_id p = postId) (posts st) of
        None \<Rightarrow> st
      | Some currentPost \<Rightarrow>
          (case interactionOutcome ty (userVote currentPost) of
             (newVote, weightChange) \<Rightarrow>
               st\<lparr>posts := updatePostState ty postId newVote (posts st),
                  activePost := syncActivePost ty postId newVote (activePost st),
                  graphData := (if weightChange \<noteq> 0
                                then updateGraphData now topic weightChange (graphData st)
                                else graphData st)\<rparr>))"

section \<open>Guard analysis (\<^verbatim>\<open>analyzePostRisk\<close> of the service module)\<close>

text \<open>
  What the awaited call \<^verbatim>\<open>ai.models.generateContent\<close> delivers: the promise is
  rejected, or it is fulfilled with a response whose \<^verbatim>\<open>text\<close> may be absent.
\<close>

datatype serviceResponse = Rejected | Fulfilled "string option"

datatype failure = RequestFailed | MalformedJson

text \<open>
  \<^verbatim>\<open>analyzePostRisk\<close> from the await on. A rejection of the request and an exception
  of \<^verbatim>\<open>JSON.parse\<close> reject the returned promise (\<^const>\<open>Inl\<close>); a falsy text (absent
  or empty) fulfils it with a fixed analysis. \<^verbatim>\<open>JSON.parse\<close> is the parameter
  \<open>parse\<close>, \<^const>\<open>None\<close> where it throws.
\<close>

definition analyzePostRisk :: "(string \<Rightarrow> guardAnalysis option) \<Rightarrow> serviceResponse \<Rightarrow> failure + guardAnalysis" where
  "analyzePostRisk parse response =
     (case response of
        Rejected \<Rightarrow> Inl RequestFailed
      | Fulfilled None \<Rightarrow>
          Inr \<lparr>isProvocative = False, reasoning = ''Analysis failed.'', manipulationType = None\<rparr>
      | Fulfilled (Some text) \<Rightarrow>
          if text = []
          then Inr \<lparr>isProvocative = False, reasoning = ''Analysis failed.'', manipulationType = None\<rparr>
          else (case parse text of
                  None \<Rightarrow> Inl MalformedJson
                | Some analysis \<Rightarrow> Inr analysis))"

section \<open>Feed pagination and enrichment (\<^verbatim>\<open>fetchNewPost\<close> of App.tsx)\<close>

text \<open>
  The fulfilment callback given to \<^verbatim>\<open>.then\<close>: \<^verbatim>\<open>setPosts\<close> and
  \<^verbatim>\<open>setActivePost\<close> with functional updates, so both read the state as it is when the
  callback runs. \<open>newPostId\<close> is \<^verbatim>\<open>newPost.id\<close> of the closure.
\<close>

definition attachGuardResult :: "string \<Rightarrow> guardAnalysis \<Rightarrow> appState \<Rightarrow> appState" where
  "attachGuardResult newPostId riskResult st =
     st\<lparr>posts :=
          map (\<lambda>p. if post_id p = newPostId then p\<lparr>guardResult := Some riskResult\<rparr> else p)
            (posts st),
        activePost :=
          (case activePost st of
             None \<Rightarrow> None
           | Some currentActive \<Rightarrow>
               if post_id currentActive = newPostId
               then Some (currentActive\<lparr>guardResult := Some riskResult\<rparr>)
               else Some currentActive)\<rparr>"

text \<open>
  The settlement of the analysis promise. \<^verbatim>\<open>.then\<close> is given no rejection callback
  and the promise is not awaited inside the \<^verbatim>\<open>try\<close>, so on a rejection no code of
  the application runs.
\<close>

definition analysisSettled :: "string \<Rightarrow> failure + guardAnalysis \<Rightarrow> appState \<Rightarrow> appState" where
  "analysisSettled newPostId outcome st =
     (case outcome of
        Inl _ \<Rightarrow> st
      | Inr riskResult \<Rightarrow> attachGuardResult newPostId riskResult st)"

text \<open>
  The application together with what its handlers see and what it has requested.
  A handler reads the state variables of the render that created it, not the state at
  the time it runs: \<open>rendered\<close> is the state as of the last render whose effects have
  run. The \<^verbatim>\<open>fetchNewPost\<close> callback and the observer callback in use are those of
  that render; \<^verbatim>\<open>useCallback\<close> and the effect rebuild them when
  \<^verbatim>\<open>isLoadingPost\<close> has changed, but only at a render. The other two fields are
  bookkeeping of the calls the code makes: the number of pending
  \<^verbatim>\<open>generateNextPost\<close> calls and the posts whose \<^verbatim>\<open>analyzePostRisk\<close> call is
  pending; the code itself keeps only the flag \<^verbatim>\<open>isLoadingPost\<close>.
\<close>

record system =
  app :: appState
  rendered :: appState
  pendingGenerations :: nat
  pendingAnalyses :: "string list"

text \<open>
  \<^verbatim>\<open>fetchNewPost\<close> up to its \<^verbatim>\<open>await\<close>: the guard, the flag, the request. The
  guard \<^verbatim>\<open>if (isLoadingPost) return\<close> reads the variable of the closure, the
  parameter \<open>closure\<close>; \<^verbatim>\<open>setIsLoadingPost(true)\<close> writes the state.
\<close>

definition fetchNewPost :: "appState \<Rightarrow> system \<Rightarrow> system" where
  "fetchNewPost closure s =
     (if isLoadingPost closure then s
      else s\<lparr>app := (app s)\<lparr>isLoadingPost := True\<rparr>,
             pendingGenerations := Suc (pendingGenerations s)\<rparr>)"

text \<open>
  \<^verbatim>\<open>fetchNewPost\<close> after its \<^verbatim>\<open>await\<close>. Fulfilled (\<open>Some newPost\<close>): the post
  is appended, its analysis is requested, and \<^verbatim>\<open>finally\<close> clears the flag. Rejected
  (\<^const>\<open>None\<close>): \<^verbatim>\<open>catch\<close> logs, and \<^verbatim>\<open>finally\<close> clears the flag.
\<close>

definition fetchNewPost_settled :: "redditPost option \<Rightarrow> system \<Rightarrow> system" where
  "fetchNewPost_settled result s =
     (case result of
        None \<Rightarrow> s\<lparr>app := (app s)\<lparr>isLoadingPost := False\<rparr>\<rparr>
      | Some newPost \<Rightarrow>
          s\<lparr>app := (app s)\<lparr>posts := posts (app s) @ [newPost], isLoadingPost := False\<rparr>,
            pendingAnalyses := pendingAnalyses s @ [post_id newPost]\<rparr>)"

text \<open>
  The callback of the \<^verbatim>\<open>IntersectionObserver\<close> for an intersecting entry. The effect
  of the last render installed the observer, and installed none when that render had a
  detail view open; the callback tests \<^verbatim>\<open>!isLoadingPost\<close> on the variable of that
  render and calls the \<^verbatim>\<open>fetchNewPost\<close> of that render.
\<close>

definition loadMoreVisible :: "system \<Rightarrow> system" where
  "loadMoreVisible s =
     (if activePost (rendered s) \<noteq> None then s
      else if \<not> isLoadingPost (rendered s) then fetchNewPost (rendered s) s
      else s)"

text \<open>A render of the current state, its effects run: the handlers are those of this state.\<close>

definition render :: "system \<Rightarrow> system" where
  "render s = s\<lparr>rendered := app s\<rparr>"

text \<open>
  What can happen in the simulator, one event at a time on the single timeline of state
  updates: React renders the pending updates; the load-more region becomes visible;
  \<^verbatim>\<open>startSimulator\<close> runs; the pending generation settles; a pending analysis settles;
  the user interacts with the \<open>k\<close>-th card of the feed (feed view) or votes in the
  detail view; the user goes back to the feed. The integer of an interaction is the clock
  reading. A click is handled in the state it finds and React renders its updates before
  anything else happens; the updates of an observer callback and of a settled promise
  wait for the next render.
\<close>

datatype event =
    Rendered
  | LoadMoreVisible
  | StartSimulator
  | GenerationSettled "redditPost option"
  | AnalysisSettled string serviceResponse
  | CardInteraction interaction nat int
  | DetailInteraction interaction int
  | Back

fun step :: "(string \<Rightarrow> guardAnalysis option) \<Rightarrow> event \<Rightarrow> system \<Rightarrow> system" where
  "step parse Rendered s = render s"
| "step parse LoadMoreVisible s = loadMoreVisible s"
| "step parse StartSimulator s = render (fetchNewPost (app s) s)"
| "step parse (GenerationSettled result) s =
     (if pendingGenerations s = 0 then s
      else fetchNewPost_settled result (s\<lparr>pendingGenerations := pendingGenerations s - 1\<rparr>))"
| "step parse (AnalysisSettled i response) s =
     (if i \<in> set (pendingAnalyses s)
      then s\<lparr>app := analysisSettled i (analyzePostRisk parse response) (app s),
             pendingAnalyses := remove1 i (pendingAnalyses s)\<rparr>
      else s)"
| "step parse (CardInteraction ty k now) s =
     (if activePost (app s) = None \<and> k < length (posts (app s))
      then (let post = posts (app s) ! k;
                st = handleInteraction now ty (topicId post) (post_id post) (app s)
            in render (s\<lparr>app := (if ty = Click then st\<lparr>activePost := Some post\<rparr> else st)\<rparr>))
      else s)"
| "step parse (DetailInteraction ty now) s =
     (case activePost (app s) of
        None \<Rightarrow> s
      | Some post \<Rightarrow>
          if ty = Click then s
          else render (s\<lparr>app := handleInteraction now ty (topicId post) (post_id post) (app s)\<rparr>))"
| "step parse Back s = render (s\<lparr>app := (app s)\<lparr>activePost := None\<rparr>\<rparr>)"

fun run :: "(string \<Rightarrow> guardAnalysis option) \<Rightarrow> event list \<Rightarrow> system \<Rightarrow> system" where
  "run parse [] s = s"
| "run parse (e # es) s = run parse es (step parse e s)"

definition initialSystem :: "graphData \<Rightarrow> system" where
  "initialSystem g =
     \<lparr>app = \<lparr>graphData = g, posts = [], isLoadingPost = False, activePost = None\<rparr>,
      rendered = \<lparr>graphData = g, posts = [], isLoadingPost = False, activePost = None\<rparr>,
      pendingGenerations = 0, pendingAnalyses = []\<rparr>"

text \<open>The open detail view shows a post of the feed.\<close>

definition activeInFeed :: "appState \<Rightarrow> bool" where
  "activeInFeed st =
     (case activePost st of
        None \<Rightarrow> True
      | Some a \<Rightarrow> post_id a \<in> post_id ` set (posts st))"

section \<open>The layout component (\<^verbatim>\<open>InterestGraph.tsx\<close>)\<close>

text \<open>
  The props the two effects of the component depend on. \<open>dataRef\<close> stands for the
  identity of the \<^verbatim>\<open>data\<close> object: React compares the dependencies of an effect
  with \<^verbatim>\<open>Object.is\<close>, and every \<^verbatim>\<open>setGraphData\<close> of the application builds
  a new object.
\<close>

record props =
  data :: graphData
  dataRef :: nat
  width :: int
  height :: int

text \<open>
  A node of the simulation is the copy \<^verbatim>\<open>{ ...d }\<close> of a node of the store together
  with what d3 adds to it, of which only the position matters here. The type of positions
  is left open.
\<close>

record 'xy simNode =
  datum :: graphNode
  position :: 'xy

text \<open>
  The d3 simulation as far as the component drives it: its nodes and links, the radii
  the collide force holds (d3 evaluates the radius accessor when the force is set), its
  \<^verbatim>\<open>alpha\<close> and whether its timer runs. The ticks of d3 are not part of the sources.
\<close>

record 'xy simulation =
  simNodes :: "'xy simNode list"
  simLinks :: "graphLink list"
  collideRadius :: "int list"
  alpha :: rat
  running :: bool

text \<open>
  The state the component keeps between renders: \<^verbatim>\<open>simulationRef.current\<close>, whether
  the last run of the first effect returned a cleanup function, and a count of the
  simulations built so far (bookkeeping, to observe a reseed). The circles of the SVG are
  bound to the nodes of the simulation that \<^verbatim>\<open>simulationRef\<close> holds: both are
  replaced together.
\<close>

record 'xy layout =
  simulationRef :: "'xy simulation option"
  cleanup :: bool
  reseeds :: nat

text \<open>
  A d3 transition scheduled on the circles bound to one identity. \<open>Pulse peak r ty\<close>:
  white fill and stroke at radius \<open>peak\<close> within 150 ms, then an elastic return to
  radius \<open>r\<close> and to the colours of the node type \<open>ty\<close>. \<open>Resize r\<close>: radius
  \<open>r\<close> within 300 ms.
\<close>

datatype transition = Pulse rat int nodeType | Resize int

datatype layoutError = NodeNotFound string

text \<open>
  \<^verbatim>\<open>d3.forceLink(links).id(d => d.id)\<close> resolves the endpoints of the links, source
  before target, and throws at the first one that is no node's identity.
\<close>

definition missingEndpoint :: "graphData \<Rightarrow> string option" where
  "missingEndpoint g =
     find (\<lambda>i. i \<notin> set (map node_id (nodes g)))
       (concat (map (\<lambda>l. [source l, target l]) (links g)))"

text \<open>
  The dependency list of the first effect:
  \<^verbatim>\<open>[data.nodes.length, data.links.length, width, height]\<close>.
\<close>

definition topologyDepsChanged :: "props \<Rightarrow> props \<Rightarrow> bool" where
  "topologyDepsChanged prev cur \<longleftrightarrow>
     length (nodes (data prev)) \<noteq> length (nodes (data cur)) \<or>
     length (links (data prev)) \<noteq> length (links (data cur)) \<or>
     width prev \<noteq> width cur \<or>
     height prev \<noteq> height cur"

text \<open>The cleanup function of the first effect: \<^verbatim>\<open>simulation.stop()\<close>.\<close>

definition runCleanup :: "'xy layout \<Rightarrow> 'xy layout" where
  "runCleanup l =
     (if cleanup l
      then l\<lparr>simulationRef := map_option (\<lambda>sim. sim\<lparr>running := False\<rparr>) (simulationRef l),
             cleanup := False\<rparr>
      else l)"

text \<open>
  \<^verbatim>\<open>d3.forceSimulation(nodes)\<close> with its four forces, on copies of the nodes and links
  of the props. The copies carry no position, so d3 places the \<open>i\<close>-th node at a
  position that depends on \<open>i\<close> only, the parameter \<open>seed\<close>. A new simulation has
  \<^verbatim>\<open>alpha\<close> 1 and runs.
\<close>

definition freshSimulation :: "(nat \<Rightarrow> 'xy) \<Rightarrow> graphData \<Rightarrow> 'xy simulation" where
  "freshSimulation seed g =
     \<lparr>simNodes = map (\<lambda>i. \<lparr>datum = nodes g ! i, position = seed i\<rparr>) [0..<length (nodes g)],
      simLinks = links g,
      collideRadius = map (\<lambda>d. val d + 8) (nodes g),
      alpha = 1,
      running = True\<rparr>"

text \<open>
  The body of the first effect (``Initialize Simulation''), the component being mounted:
  nothing for an empty node list; otherwise the SVG is cleared and a new simulation is
  built and stored.
\<close>

definition initializeSimulation :: "(nat \<Rightarrow> 'xy) \<Rightarrow> props \<Rightarrow> 'xy layout \<Rightarrow> layoutError + 'xy layout" where
  "initializeSimulation seed p l =
     (if nodes (data p) = [] then Inr l
      else (case missingEndpoint (data p) of
              Some i \<Rightarrow> Inl (NodeNotFound i)
            | None \<Rightarrow>
                Inr (l\<lparr>simulationRef := Some (freshSimulation seed (data p)),
                       cleanup := True,
                       reseeds := Suc (reseeds l)\<rparr>)))"

text \<open>
  The test of the second effect for a flash:
  \<^verbatim>\<open>newData.lastUpdated && (now - newData.lastUpdated) < 1000\<close>. A stamp of 0 is falsy.
\<close>

definition recentlyUpdated :: "int \<Rightarrow> graphNode \<Rightarrow> bool" where
  "recentlyUpdated now newData =
     (case lastUpdated newData of
        None \<Rightarrow> False
      | Some t \<Rightarrow> t \<noteq> 0 \<and> now - t < 1000)"

text \<open>
  One round of the \<^verbatim>\<open>forEach\<close> of the second effect: the node of the simulation after
  it, and the transition scheduled on the circles bound to its identity, if any. The
  test \<^verbatim>\<open>Math.abs(oldVal - newData.val) > 0.1\<close> is written on integers.
\<close>

definition reconcileNode :: "int \<Rightarrow> graphNode list \<Rightarrow> 'xy simNode \<Rightarrow> 'xy simNode \<times> (string \<times> transition) option" where
  "reconcileNode now newNodes d =
     (case find (\<lambda>n. node_id n = node_id (datum d)) newNodes of
        None \<Rightarrow> (d, None)
      | Some newData \<Rightarrow>
          (let oldVal = val (datum d);
               d' = d\<lparr>datum := (datum d)\<lparr>val := val newData\<rparr>\<rparr>
           in if recentlyUpdated now newData
              then (d', Some (node_id (datum d),
                      Pulse (of_int (val newData) * (3 / 2) + 10) (val newData) (node_type (datum d))))
              else if 10 * \<bar>oldVal - val newData\<bar> > 1
              then (d', Some (node_id (datum d), Resize (val newData)))
              else (d', None)))"

text \<open>
  The body of the second effect (``Handle Live Updates''): every node of the simulation
  is reconciled with the props; when a transition was scheduled (\<^verbatim>\<open>hasUpdates\<close>), the
  collide force is set again and the simulation is restarted at \<^verbatim>\<open>alpha\<close> 0.3.
\<close>

definition handleLiveUpdates :: "int \<Rightarrow> graphData \<Rightarrow> 'xy layout \<Rightarrow> 'xy layout \<times> (string \<times> transition) list" where
  "handleLiveUpdates now g l =
     (case simulationRef l of
        None \<Rightarrow> (l, [])
      | Some sim \<Rightarrow>
          (let results = map (reconcileNode now (nodes g)) (simNodes sim);
               simulationNodes = map fst results;
               transitions = List.map_filter snd results;
               hasUpdates = (transitions \<noteq> [])
           in (l\<lparr>simulationRef :=
                   Some (if hasUpdates
                         then sim\<lparr>simNodes := simulationNodes,
                                  collideRadius := map (\<lambda>d. val (datum d) + 8) simulationNodes,
                                  alpha := 3 / 10,
                                  running := True\<rparr>
                         else sim\<lparr>simNodes := simulationNodes\<rparr>)\<rparr>,
               transitions)))"

text \<open>
  A render with new props after a render with the props \<open>prev\<close>: React runs the
  cleanup and the body of the first effect when one of its dependencies has changed, then
  the second effect when \<^verbatim>\<open>data\<close> is another object. An exception in an effect ends
  the component.
\<close>

definition rerender :: "(nat \<Rightarrow> 'xy) \<Rightarrow> int \<Rightarrow> props \<Rightarrow> props \<Rightarrow> 'xy layout \<Rightarrow> layoutError + ('xy layout \<times> (string \<times> transition) list)" where
  "rerender seed now prev cur l =
     (case (if topologyDepsChanged prev cur
            then initializeSimulation seed cur (runCleanup l)
            else Inr l) of
        Inl e \<Rightarrow> Inl e
      | Inr l1 \<Rightarrow>
          Inr (if dataRef prev \<noteq> dataRef cur
               then handleLiveUpdates now (data cur) l1
               else (l1, [])))"

text \<open>The first render: both effects run, on a component that holds no simulation.\<close>

definition mount :: "(nat \<Rightarrow> 'xy) \<Rightarrow> int \<Rightarrow> props \<Rightarrow> layoutError + ('xy layout \<times> (string \<times> transition) list)" where
  "mount seed now p =
     (case initializeSimulation seed p \<lparr>simulationRef = None, cleanup = False, reseeds = 0\<rparr> of
        Inl e \<Rightarrow> Inl e
      | Inr l1 \<Rightarrow> Inr (handleLiveUpdates now (data p) l1))"

text \<open>What is seen of a layout: the positions and the weights of the nodes it shows.\<close>

definition nodePositions :: "'xy layout \<Rightarrow> 'xy list" where
  "nodePositions l =
     (case simulationRef l of
        None \<Rightarrow> []
      | Some sim \<Rightarrow> map position (simNodes sim))"

definition nodeData :: "'xy layout \<Rightarrow> graphNode list" where
  "nodeData l =
     (case simulationRef l of
        None \<Rightarrow> []
      | Some sim \<Rightarrow> map datum (simNodes sim))"

section \<open>Concrete states used in the examples\<close>

definition examplePost :: "vote option \<Rightarrow> redditPost" where
  "examplePost v =
     \<lparr>post_id = ''p1'', upvotes = 120, comments = 7, timestamp = ''Just now'',
      title = ''A post'', subreddit = ''gaming'', author = ''someone'',
      content = ''Text'', topicId = ''r/gaming'', userVote = v, guardResult = None\<rparr>"

definition exampleNode :: "string \<Rightarrow> int \<Rightarrow> graphNode" where
  "exampleNode i w =
     \<lparr>node_id = i, node_type = Subreddit, node_group = 1, val = w,
      desc = None, lastUpdated = None\<rparr>"

definition exampleState :: "int \<Rightarrow> vote option \<Rightarrow> appState" where
  "exampleState w v =
     \<lparr>graphData = \<lparr>nodes = [exampleNode ''r/gaming'' w, exampleNode ''r/pics'' 40], links = []\<rparr>,
      posts = [examplePost v], isLoadingPost = False, activePost = None\<rparr>"

definition exampleAnalysis :: guardAnalysis where
  "exampleAnalysis =
     \<lparr>isProvocative = True, reasoning = ''Targets the interest.'',
      manipulationType = Some ''Rage Bait''\<rparr>"

definition exampleSystem :: "string list \<Rightarrow> system" where
  "exampleSystem pending =
     \<lparr>app = exampleState 50 None, rendered = exampleState 50 None,
      pendingGenerations = 0, pendingAnalyses = pending\<rparr>"

definition exampleSeed :: "nat \<Rightarrow> int \<times> int" where
  "exampleSeed i = (10 * int i, 0)"

definition exampleProps :: props where
  "exampleProps =
     \<lparr>data = graphData (exampleState 50 None), dataRef = 0, width = 800, height = 800\<rparr>"

definition exampleLayout :: "(int \<times> int) layout" where
  "exampleLayout =
     \<lparr>simulationRef = Some
        \<lparr>simNodes = [\<lparr>datum = exampleNode ''r/gaming'' 50, position = (0, 0)\<rparr>,
                     \<lparr>datum = exampleNode ''r/pics'' 40, position = (10, 0)\<rparr>],
         simLinks = [], collideRadius = [58, 48], alpha = 1, running = True\<rparr>,
      cleanup = True, reseeds = 1\<rparr>"

text \<open>The graph of the example after an upvote on \<^verbatim>\<open>r/gaming\<close> at time 5000.\<close>

definition exampleUpvoted :: graphData where
  "exampleUpvoted =
     \<lparr>nodes = [(exampleNode ''r/gaming'' 75)\<lparr>lastUpdated := Some 5000\<rparr>, exampleNode ''r/pics'' 40],
      links = []\<rparr>"

text \<open>The layout of the example after the simulation has moved its nodes.\<close>

definition driftedLayout :: "(int \<times> int) layout" where
  "driftedLayout =
     \<lparr>simulationRef = Some
        \<lparr>simNodes = [\<lparr>datum = exampleNode ''r/gaming'' 50, position = (3, 4)\<rparr>,
                     \<lparr>datum = exampleNode ''r/pics'' 40, position = (15, - 2)\<rparr>],
         simLinks = [], collideRadius = [58, 48], alpha = 1 / 100, running = True\<rparr>,
      cleanup = True, reseeds = 1\<rparr>"

section \<open>Properties of the interaction handler\<close>

lemma interactionOutcome_nonzero: "snd (interactionOutcome ty v) \<noteq> 0"
  by (cases ty) auto

lemma handleInteraction_found:
  assumes "find (\<lambda>p. post_id p = postId) (posts st) = Some p"
  shows "handleInteraction now ty topic postId st =
           st\<lparr>posts := updatePostState ty postId (fst (interactionOutcome ty (userVote p))) (posts st),
              activePost := syncActivePost ty postId (fst (interactionOutcome ty (userVote p))) (activePost st),
              graphData := updateGraphData now topic (snd (interactionOutcome ty (userVote p))) (graphData st)\<rparr>"
proof (cases "interactionOutcome ty (userVote p)")
  case (Pair newVote weightChange)
  with interactionOutcome_nonzero [of ty "userVote p"] have "weightChange \<noteq> 0"
    by simp
  with Pair assms show ?thesis
    by (simp add: handleInteraction_def)
qed

lemma nodes_handleInteraction:
  assumes "find (\<lambda>p. post_id p = postId) (posts st) = Some p"
  shows "nodes (graphData (handleInteraction now ty topic postId st)) =
           map (\<lambda>node. if node_id node = topic
                        then node\<lparr>val := max 10 (min 180 (val node + snd (interactionOutcome ty (userVote p)))),
                                  lastUpdated := Some now\<rparr>
                        else node) (nodes (graphData st))"
  by (simp add: handleInteraction_found [OF assms] updateGraphData_def)

lemma posts_handleInteraction:
  assumes "find (\<lambda>p. post_id p = postId) (posts st) = Some p"
  shows "posts (handleInteraction now ty topic postId st) =
           updatePostState ty postId (fst (interactionOutcome ty (userVote p))) (posts st)"
  by (simp add: handleInteraction_found [OF assms])

text \<open>
  Claim C1. The step from (action, prior vote) to (new vote, weight change) is the
  transition table: an upvote gives (up, +25) from no vote, (none, -25) from up and
  (up, +45) from down; a downvote gives (down, -20) from no vote, (none, +20) from down
  and (down, -45) from up; a click keeps the vote, whatever it is, and gives +5.
\<close>

theorem interactionOutcome_table:
  "interactionOutcome Upvote None = (Some Up, 25) \<and>
   interactionOutcome Upvote (Some Up) = (None, - 25) \<and>
   interactionOutcome Upvote (Some Down) = (Some Up, 45) \<and>
   interactionOutcome Downvote None = (Some Down, - 20) \<and>
   interactionOutcome Downvote (Some Down) = (None, 20) \<and>
   interactionOutcome Downvote (Some Up) = (Some Down, - 45) \<and>
   interactionOutcome Click v = (v, 5)"
  by simp


text \<open>
  Claim C2. When an interaction reaches the graph, each node carrying the topic's
  identity ends with the weight \<open>max 10 (min 180 (old + delta))\<close>, which lies in
  \<open>[10, 180]\<close>; apart from the weight and the stamp the node is as before, and every
  other node is untouched, so what the clamp cuts off goes nowhere else. When the old
  weight was itself in range, the effective change is at most the delta in size.
  At weight 175 an upvote from no vote ends at 180 (the witness).
\<close>

theorem weight_clamped:
  assumes "find (\<lambda>p. post_id p = postId) (posts st) = Some p"
    and "k < length (nodes (graphData st))"
    and "old = nodes (graphData st) ! k"
    and "new = nodes (graphData (handleInteraction now ty topic postId st)) ! k"
    and "delta = snd (interactionOutcome ty (userVote p))"
  shows "length (nodes (graphData (handleInteraction now ty topic postId st))) =
           length (nodes (graphData st)) \<and>
         (if node_id old = topic
          then new = old\<lparr>val := max 10 (min 180 (val old + delta)), lastUpdated := Some now\<rparr> \<and>
               10 \<le> val new \<and> val new \<le> 180 \<and>
               (10 \<le> val old \<and> val old \<le> 180 \<longrightarrow> \<bar>val new - val old\<bar> \<le> \<bar>delta\<bar>)
          else new = old)"
  using assms by (auto simp: nodes_handleInteraction)

theorem weight_clamped_witness:
  "val (nodes (graphData (handleInteraction 1000 Upvote ''r/gaming'' ''p1'' (exampleState 175 None))) ! 0) = 180 \<and>
   nodes (graphData (handleInteraction 1000 Upvote ''r/gaming'' ''p1'' (exampleState 175 None))) ! 1 =
     exampleNode ''r/pics'' 40"
  using weight_clamped [where postId = "''p1''" and st = "exampleState 175 None"
      and p = "examplePost None" and k = 0 and now = 1000 and ty = Upvote
      and topic = "''r/gaming''", OF _ _ refl refl refl]
    weight_clamped [where postId = "''p1''" and st = "exampleState 175 None"
      and p = "examplePost None" and k = 1 and now = 1000 and ty = Upvote
      and topic = "''r/gaming''", OF _ _ refl refl refl]
  by (simp add: exampleState_def examplePost_def exampleNode_def)

text \<open>
  Claim C4, as the code has it. Every interaction that reaches the graph stamps each
  node carrying the topic's identity with the clock reading, whether or not the clamped
  weight differs from the weight before; the stamps of the other nodes stay.
\<close>

theorem timestamp_stamped:
  assumes "find (\<lambda>p. post_id p = postId) (posts st) = Some p"
    and "k < length (nodes (graphData st))"
    and "old = nodes (graphData st) ! k"
    and "new = nodes (graphData (handleInteraction now ty topic postId st)) ! k"
  shows "lastUpdated new = (if node_id old = topic then Some now else lastUpdated old)"
  using assms by (simp add: nodes_handleInteraction)

theorem timestamp_stamped_witness:
  "lastUpdated (nodes (graphData (handleInteraction 1000 Downvote ''r/gaming'' ''p1'' (exampleState 50 None))) ! 0) = Some 1000 \<and>
   lastUpdated (nodes (graphData (handleInteraction 1000 Downvote ''r/gaming'' ''p1'' (exampleState 50 None))) ! 1) = None"
  using timestamp_stamped [where postId = "''p1''" and st = "exampleState 50 None"
      and p = "examplePost None" and k = 0 and now = 1000 and ty = Downvote
      and topic = "''r/gaming''", OF _ _ refl refl]
    timestamp_stamped [where postId = "''p1''" and st = "exampleState 50 None"
      and p = "examplePost None" and k = 1 and now = 1000 and ty = Downvote
      and topic = "''r/gaming''", OF _ _ refl refl]
  by (simp add: exampleState_def examplePost_def exampleNode_def)

text \<open>
  The claim as stated fails: an upvote from no vote at weight 180 leaves the weight at
  180 and still stamps the node, which had no stamp before.
\<close>

theorem timestamp_unchanged_weight_counterexample:
  "map val (nodes (graphData (exampleState 180 None))) = [180, 40] \<and>
   map lastUpdated (nodes (graphData (exampleState 180 None))) = [None, None] \<and>
   map val (nodes (graphData (handleInteraction 1000 Upvote ''r/gaming'' ''p1'' (exampleState 180 None)))) = [180, 40] \<and>
   map lastUpdated (nodes (graphData (handleInteraction 1000 Upvote ''r/gaming'' ''p1'' (exampleState 180 None)))) = [Some 1000, None]"
  by (simp add: handleInteraction_def updateGraphData_def exampleState_def examplePost_def exampleNode_def)

text \<open>
  Claim C10. An interaction whose post identity is not that of any item of the feed
  leaves the whole state as it was: feed, votes, detail view, weights and stamps.
\<close>

theorem handleInteraction_unknown_post:
  assumes "postId \<notin> post_id ` set (posts st)"
  shows "handleInteraction now ty topic postId st = st"
proof -
  from assms have "find (\<lambda>p. post_id p = postId) (posts st) = None"
    by (auto simp: find_None_iff)
  then show ?thesis
    by (simp add: handleInteraction_def)
qed

theorem handleInteraction_unknown_post_witness:
  "handleInteraction 1000 Upvote ''r/gaming'' ''p2'' (exampleState 50 None) = exampleState 50 None \<and>
   handleInteraction 1000 Downvote ''r/gaming'' ''p2'' (exampleState 50 None) = exampleState 50 None \<and>
   handleInteraction 1000 Click ''r/gaming'' ''p2'' (exampleState 50 None) = exampleState 50 None"
  using handleInteraction_unknown_post [of "''p2''" "exampleState 50 None" 1000 _ "''r/gaming''"]
  by (simp add: exampleState_def examplePost_def)


lemma find_updatePostState:
  assumes "find (\<lambda>p. post_id p = postId) xs = Some p" and "ty \<noteq> Click"
  shows "find (\<lambda>p. post_id p = postId) (updatePostState ty postId nv xs) = Some (p\<lparr>userVote := nv\<rparr>)"
  using assms by (induction xs) (auto simp: updatePostState_def)

lemma updatePostState_twice:
  assumes "ty \<noteq> Click"
  shows "updatePostState ty postId nv' (updatePostState ty postId nv xs) =
           map (\<lambda>q. if post_id q = postId then q\<lparr>userVote := nv'\<rparr> else q) xs"
  using assms by (induction xs) (auto simp: updatePostState_def)

lemma syncActivePost_twice:
  assumes "ty \<noteq> Click"
  shows "syncActivePost ty postId nv' (syncActivePost ty postId nv a) =
           map_option (\<lambda>q. if post_id q = postId then q\<lparr>userVote := nv'\<rparr> else q) a"
  using assms by (cases a) (auto simp: syncActivePost_def)

lemma second_vote_clears:
  assumes "ty = Upvote \<or> ty = Downvote" and "fst (interactionOutcome ty v) \<noteq> None"
  shows "fst (interactionOutcome ty (fst (interactionOutcome ty v))) = None"
  using assms by (auto split: if_splits)

text \<open>
  Claim C9. Casting a vote that turns the post's vote on and then casting the same vote
  again leaves the post (in the feed and in the open detail view) with no vote and
  changes nothing else of the feed. When the post had no vote before, the two deltas
  cancel, and every node whose two applications were not cut by the clamp (both sums
  stayed in \<open>[10, 180]\<close>), like every node the votes did not address, ends with the
  weight it had before the first vote.
\<close>

theorem toggle_twice:
  assumes "find (\<lambda>p. post_id p = postId) (posts st) = Some p"
    and "ty = Upvote \<or> ty = Downvote"
    and "fst (interactionOutcome ty (userVote p)) \<noteq> None"
    and "stA = handleInteraction tA ty topic postId st"
    and "stB = handleInteraction tB ty topic postId stA"
    and "dA = snd (interactionOutcome ty (userVote p))"
    and "dB = snd (interactionOutcome ty (fst (interactionOutcome ty (userVote p))))"
  shows "posts stB = map (\<lambda>q. if post_id q = postId then q\<lparr>userVote := None\<rparr> else q) (posts st) \<and>
         activePost stB =
           map_option (\<lambda>q. if post_id q = postId then q\<lparr>userVote := None\<rparr> else q) (activePost st) \<and>
         (userVote p = None \<longrightarrow>
            dA + dB = 0 \<and>
            (\<forall>k < length (nodes (graphData st)).
               (node_id (nodes (graphData st) ! k) = topic \<longrightarrow>
                  10 \<le> val (nodes (graphData st) ! k) + dA \<and>
                  val (nodes (graphData st) ! k) + dA \<le> 180 \<and>
                  10 \<le> val (nodes (graphData st) ! k) + dA + dB \<and>
                  val (nodes (graphData st) ! k) + dA + dB \<le> 180) \<longrightarrow>
               val (nodes (graphData stB) ! k) = val (nodes (graphData st) ! k)))"
proof -
  let ?nv = "fst (interactionOutcome ty (userVote p))"
  from assms(2) have ty: "ty \<noteq> Click" by auto
  have foundA: "find (\<lambda>p. post_id p = postId) (posts stA) = Some (p\<lparr>userVote := ?nv\<rparr>)"
    using assms(1) ty by (simp add: assms(4) posts_handleInteraction find_updatePostState)
  have nvB: "fst (interactionOutcome ty ?nv) = None"
    using assms(2,3) by (rule second_vote_clears)
  have stA: "stA = st\<lparr>posts := updatePostState ty postId ?nv (posts st),
                       activePost := syncActivePost ty postId ?nv (activePost st),
                       graphData := updateGraphData tA topic dA (graphData st)\<rparr>"
    by (simp add: assms(4,6) handleInteraction_found [OF assms(1)])
  have stB: "stB = stA\<lparr>posts := updatePostState ty postId None (posts stA),
                        activePost := syncActivePost ty postId None (activePost stA),
                        graphData := updateGraphData tB topic dB (graphData stA)\<rparr>"
    using nvB by (simp add: assms(5,7) handleInteraction_found [OF foundA])
  have a: "posts stB = map (\<lambda>q. if post_id q = postId then q\<lparr>userVote := None\<rparr> else q) (posts st)"
    by (simp add: stB stA updatePostState_twice [OF ty])
  have b: "activePost stB =
      map_option (\<lambda>q. if post_id q = postId then q\<lparr>userVote := None\<rparr> else q) (activePost st)"
    by (simp add: stB stA syncActivePost_twice [OF ty])
  have c: "dA + dB = 0" if "userVote p = None"
    using that assms(2) by (auto simp: assms(6,7))
  have d: "val (nodes (graphData stB) ! k) = val (nodes (graphData st) ! k)"
    if "userVote p = None" and "k < length (nodes (graphData st))"
      and "node_id (nodes (graphData st) ! k) = topic \<longrightarrow>
                  10 \<le> val (nodes (graphData st) ! k) + dA \<and>
                  val (nodes (graphData st) ! k) + dA \<le> 180 \<and>
                  10 \<le> val (nodes (graphData st) ! k) + dA + dB \<and>
                  val (nodes (graphData st) ! k) + dA + dB \<le> 180" for k
    using that c by (auto simp: stB stA updateGraphData_def)
  from a b c d show ?thesis by blast
qed

theorem toggle_twice_witness:
  "posts (handleInteraction 2000 Upvote ''r/gaming'' ''p1''
            (handleInteraction 1000 Upvote ''r/gaming'' ''p1'' (exampleState 50 None))) = [examplePost None] \<and>
   val (nodes (graphData (handleInteraction 2000 Upvote ''r/gaming'' ''p1''
            (handleInteraction 1000 Upvote ''r/gaming'' ''p1'' (exampleState 50 None)))) ! 0) = 50"
  using toggle_twice [where postId = "''p1''" and st = "exampleState 50 None"
      and p = "examplePost None" and ty = Upvote and topic = "''r/gaming''"
      and tA = 1000 and tB = 2000, OF _ _ _ refl refl refl refl]
  by (simp add: exampleState_def examplePost_def exampleNode_def)

text \<open>
  When the post carried the opposite vote, the first application is a flip: the two
  deltas then add up to the delta that clears the old vote, so the weight ends where it
  stood before that old vote was cast (when nothing was cut by the clamp).
\<close>

lemma toggle_after_flip_deltas:
  "snd (interactionOutcome Upvote (Some Down)) +
     snd (interactionOutcome Upvote (fst (interactionOutcome Upvote (Some Down)))) =
   snd (interactionOutcome Downvote (Some Down)) \<and>
   snd (interactionOutcome Downvote (Some Up)) +
     snd (interactionOutcome Downvote (fst (interactionOutcome Downvote (Some Up)))) =
   snd (interactionOutcome Upvote (Some Up))"
  by simp

text \<open>
  The spec's scenario: the node \<^verbatim>\<open>r/gaming\<close> at weight 50, an upvote (75), the same
  upvote again (50), a downvote (30).
\<close>

lemma example_scenario_gaming:
  "map val (nodes (graphData (handleInteraction 1000 Upvote ''r/gaming'' ''p1'' (exampleState 50 None)))) = [75, 40] \<and>
   map val (nodes (graphData (handleInteraction 2000 Upvote ''r/gaming'' ''p1''
     (handleInteraction 1000 Upvote ''r/gaming'' ''p1'' (exampleState 50 None))))) = [50, 40] \<and>
   map val (nodes (graphData (handleInteraction 3000 Downvote ''r/gaming'' ''p1''
     (handleInteraction 2000 Upvote ''r/gaming'' ''p1''
       (handleInteraction 1000 Upvote ''r/gaming'' ''p1'' (exampleState 50 None)))))) = [30, 40]"
  by (simp add: handleInteraction_def updateGraphData_def updatePostState_def syncActivePost_def
      exampleState_def examplePost_def exampleNode_def)


section \<open>Properties of pagination and enrichment\<close>

lemma handleInteraction_isLoadingPost [simp]:
  "isLoadingPost (handleInteraction now ty topic postId st) = isLoadingPost st"
  by (simp add: handleInteraction_def split: option.splits prod.splits)

lemma analysisSettled_isLoadingPost [simp]:
  "isLoadingPost (analysisSettled i outcome st) = isLoadingPost st"
  by (simp add: analysisSettled_def attachGuardResult_def split: sum.splits)

lemma app_render [simp]: "app (render s) = app s"
  by (simp add: render_def)

lemma pendingGenerations_render [simp]: "pendingGenerations (render s) = pendingGenerations s"
  by (simp add: render_def)

lemma rendered_render [simp]: "rendered (render s) = app s"
  by (simp add: render_def)

text \<open>
  As long as every event is followed by a render before the next event, at most one
  generation request is pending, and one is pending exactly when the flag is set: with a
  current closure the guard of \<^verbatim>\<open>fetchNewPost\<close> does what it is there for.
\<close>

lemma step_rendered_flight:
  assumes "pendingGenerations s \<le> 1"
    and "isLoadingPost (app s) \<longleftrightarrow> pendingGenerations s = 1"
    and "isLoadingPost (rendered s) = isLoadingPost (app s)"
  shows "pendingGenerations (step parse e s) \<le> 1 \<and>
         (isLoadingPost (app (step parse e s)) \<longleftrightarrow> pendingGenerations (step parse e s) = 1)"
proof (cases e)
  case Rendered
  with assms show ?thesis by simp
next
  case LoadMoreVisible
  with assms show ?thesis by (auto simp: loadMoreVisible_def fetchNewPost_def)
next
  case StartSimulator
  with assms show ?thesis by (auto simp: fetchNewPost_def)
next
  case (GenerationSettled result)
  with assms show ?thesis by (auto simp: fetchNewPost_settled_def split: option.splits)
next
  case (AnalysisSettled i response)
  with assms show ?thesis by auto
next
  case (CardInteraction ty k now)
  with assms show ?thesis by (auto simp: Let_def)
next
  case (DetailInteraction ty now)
  with assms show ?thesis by (auto split: option.splits)
next
  case Back
  with assms show ?thesis by auto
qed

lemma single_flight_when_rendered:
  assumes "pendingGenerations s \<le> 1"
    and "isLoadingPost (app s) \<longleftrightarrow> pendingGenerations s = 1"
    and "isLoadingPost (rendered s) = isLoadingPost (app s)"
  shows "pendingGenerations (run parse (concat (map (\<lambda>e. [e, Rendered]) evs)) s) \<le> 1"
  using assms
proof (induction evs arbitrary: s)
  case Nil
  then show ?case by simp
next
  case (Cons e es)
  let ?s = "step parse Rendered (step parse e s)"
  from step_rendered_flight [OF Cons.prems, of parse e]
  have "pendingGenerations ?s \<le> 1"
    and "isLoadingPost (app ?s) \<longleftrightarrow> pendingGenerations ?s = 1"
    and "isLoadingPost (rendered ?s) = isLoadingPost (app ?s)"
    by simp_all
  from Cons.IH [OF this] show ?case
    by simp
qed

text \<open>
  When a pending generation fails, the flag is cleared, the feed and the pending analyses
  are as before and one request fewer is pending: nothing is retried. After the next
  render a visibility trigger in the feed view issues a request again.
\<close>

lemma generation_failure_clears_flag:
  assumes "pendingGenerations s \<noteq> 0"
    and "failed = step parse (GenerationSettled None) s"
  shows "\<not> isLoadingPost (app failed) \<and>
         posts (app failed) = posts (app s) \<and>
         pendingGenerations failed = pendingGenerations s - 1 \<and>
         pendingAnalyses failed = pendingAnalyses s \<and>
         (activePost (app s) = None \<longrightarrow>
            pendingGenerations (step parse LoadMoreVisible (step parse Rendered failed)) =
              pendingGenerations s)"
  using assms
  by (auto simp: fetchNewPost_settled_def loadMoreVisible_def fetchNewPost_def render_def)

lemma handleInteraction_post_ids:
  "map post_id (posts (handleInteraction now ty topic postId st)) = map post_id (posts st)"
  by (simp add: handleInteraction_def updatePostState_def split: option.splits prod.splits)

lemma handleInteraction_active_id:
  "map_option post_id (activePost (handleInteraction now ty topic postId st)) =
     map_option post_id (activePost st)"
  by (simp add: handleInteraction_def syncActivePost_def split: option.splits prod.splits)

lemma activeInFeed_iff:
  "activeInFeed st \<longleftrightarrow>
     (case map_option post_id (activePost st) of
        None \<Rightarrow> True
      | Some i \<Rightarrow> i \<in> set (map post_id (posts st)))"
  by (simp add: activeInFeed_def split: option.splits)

lemma handleInteraction_activeInFeed:
  "activeInFeed (handleInteraction now ty topic postId st) = activeInFeed st"
  by (simp only: activeInFeed_iff handleInteraction_post_ids handleInteraction_active_id)

lemma attachGuardResult_post_ids:
  "map post_id (posts (attachGuardResult i r st)) = map post_id (posts st)"
  by (simp add: attachGuardResult_def)

lemma attachGuardResult_active_id:
  "map_option post_id (activePost (attachGuardResult i r st)) = map_option post_id (activePost st)"
  by (simp add: attachGuardResult_def split: option.splits)

lemma attachGuardResult_activeInFeed:
  "activeInFeed (attachGuardResult i r st) = activeInFeed st"
  by (simp only: activeInFeed_iff attachGuardResult_post_ids attachGuardResult_active_id)

lemma step_activeInFeed:
  assumes "activeInFeed (app s)"
  shows "activeInFeed (app (step parse e s))"
proof (cases e)
  case Rendered
  with assms show ?thesis
    by simp
next
  case LoadMoreVisible
  with assms show ?thesis
    by (auto simp: loadMoreVisible_def fetchNewPost_def activeInFeed_def split: option.splits)
next
  case StartSimulator
  with assms show ?thesis
    by (auto simp: fetchNewPost_def activeInFeed_def split: option.splits)
next
  case (GenerationSettled result)
  with assms show ?thesis
    by (auto simp: fetchNewPost_settled_def activeInFeed_def split: option.splits)
next
  case (AnalysisSettled i response)
  with assms show ?thesis
    by (auto simp: analysisSettled_def attachGuardResult_activeInFeed split: sum.splits)
next
  case (CardInteraction ty k now)
  show ?thesis
  proof (cases "activePost (app s) = None \<and> k < length (posts (app s)) \<and> ty = Click")
    case True
    let ?post = "posts (app s) ! k"
    from True have "post_id ?post \<in> set (map post_id (posts (app s)))"
      by simp
    then have "post_id ?post \<in> set (map post_id
        (posts (handleInteraction now Click (topicId ?post) (post_id ?post) (app s))))"
      by (simp only: handleInteraction_post_ids)
    with True CardInteraction show ?thesis
      by (simp add: Let_def activeInFeed_def)
  next
    case False
    with assms CardInteraction show ?thesis
      by (auto simp: Let_def handleInteraction_activeInFeed)
  qed
next
  case (DetailInteraction ty now)
  with assms show ?thesis
    by (auto simp: handleInteraction_activeInFeed split: option.splits)
next
  case Back
  then show ?thesis
    by (simp add: activeInFeed_def)
qed

lemma run_activeInFeed:
  assumes "activeInFeed (app s)"
  shows "activeInFeed (app (run parse evs s))"
  using assms
proof (induction evs arbitrary: s)
  case Nil
  then show ?case by simp
next
  case (Cons e es)
  from Cons.IH [OF step_activeInFeed [OF Cons.prems]] show ?case
    by simp
qed

lemma reachable_activeInFeed: "activeInFeed (app (run parse evs (initialSystem g)))"
  by (rule run_activeInFeed) (simp add: initialSystem_def activeInFeed_def)

text \<open>
  Claim C5. The merge of an analysis result reads the feed as it is when the result
  arrives, and changes the annotation field of the items carrying the identity, nothing
  else of them, no other item, and neither the graph nor the in-flight flag. When no item
  of the feed carries the identity, the feed is unchanged, and (the detail view showing a
  post of the feed, as it does in every reachable state) so is the whole state. The merge
  is a total function of the state: it has no failing branch.
\<close>

theorem attachGuardResult_merge:
  assumes "st' = attachGuardResult i r st"
    and "k < length (posts st)"
  shows "length (posts st') = length (posts st) \<and>
         posts st' ! k =
           (if post_id (posts st ! k) = i then (posts st ! k)\<lparr>guardResult := Some r\<rparr>
            else posts st ! k) \<and>
         graphData st' = graphData st \<and>
         isLoadingPost st' = isLoadingPost st \<and>
         (i \<notin> post_id ` set (posts st) \<longrightarrow>
            posts st' = posts st \<and> (activeInFeed st \<longrightarrow> st' = st))"
proof -
  have feed: "posts st' = posts st" if "i \<notin> post_id ` set (posts st)"
  proof -
    from that have "map (\<lambda>p. if post_id p = i then p\<lparr>guardResult := Some r\<rparr> else p) (posts st) =
        map (\<lambda>p. p) (posts st)"
      by (intro map_cong) auto
    then show ?thesis
      by (simp add: assms(1) attachGuardResult_def)
  qed
  have rest: "graphData st' = graphData st" "isLoadingPost st' = isLoadingPost st"
    by (simp_all add: assms(1) attachGuardResult_def)
  have whole: "st' = st" if "i \<notin> post_id ` set (posts st)" and "activeInFeed st"
  proof -
    from that have "activePost st' = activePost st"
      by (auto simp: assms(1) attachGuardResult_def activeInFeed_def split: option.splits)
    with feed [OF that(1)] rest show ?thesis
      by simp
  qed
  have item: "posts st' ! k =
      (if post_id (posts st ! k) = i then (posts st ! k)\<lparr>guardResult := Some r\<rparr> else posts st ! k)"
    using assms(2) by (simp add: assms(1) attachGuardResult_def)
  have len: "length (posts st') = length (posts st)"
    by (simp add: assms(1) attachGuardResult_def)
  from feed rest whole item len show ?thesis
    by blast
qed

theorem attachGuardResult_merge_witness:
  "attachGuardResult ''gone'' exampleAnalysis (exampleState 50 (Some Up)) = exampleState 50 (Some Up) \<and>
   posts (attachGuardResult ''p1'' exampleAnalysis (exampleState 50 (Some Up))) =
     [(examplePost (Some Up))\<lparr>guardResult := Some exampleAnalysis\<rparr>]"
  using attachGuardResult_merge [where i = "''gone''" and r = exampleAnalysis
      and st = "exampleState 50 (Some Up)" and k = 0, OF refl]
    attachGuardResult_merge [where i = "''p1''" and r = exampleAnalysis
      and st = "exampleState 50 (Some Up)" and k = 0, OF refl]
  by (simp add: exampleState_def examplePost_def activeInFeed_def attachGuardResult_def)


text \<open>
  Claim C6, as the code has it. A pending analysis settles. When the request is
  rejected or the response text does not parse, no code of the application runs and the
  state stays as it is, so the item keeps the annotation field it had. When the
  response text is absent or empty, the analysis is fulfilled with the fixed result
  \<open>isProvocative = False\<close>, \<open>reasoning = ''Analysis failed.''\<close>, which is merged
  into the item like any other result. In every case no new request is issued, and the
  items of other identities, the graph and the in-flight flag are untouched.
\<close>

theorem analysis_failure_settled:
  assumes "i \<in> set (pendingAnalyses s)"
    and "s' = step parse (AnalysisSettled i response) s"
    and "k < length (posts (app s))"
  shows "(response = Rejected \<or> (\<exists>t. response = Fulfilled (Some t) \<and> t \<noteq> [] \<and> parse t = None)
            \<longrightarrow> app s' = app s) \<and>
         (response = Fulfilled None \<or> response = Fulfilled (Some [])
            \<longrightarrow> app s' =
                 attachGuardResult i
                   \<lparr>isProvocative = False, reasoning = ''Analysis failed.'', manipulationType = None\<rparr>
                   (app s)) \<and>
         pendingGenerations s' = pendingGenerations s \<and>
         pendingAnalyses s' = remove1 i (pendingAnalyses s) \<and>
         graphData (app s') = graphData (app s) \<and>
         isLoadingPost (app s') = isLoadingPost (app s) \<and>
         length (posts (app s')) = length (posts (app s)) \<and>
         (post_id (posts (app s) ! k) \<noteq> i \<longrightarrow> posts (app s') ! k = posts (app s) ! k)"
proof -
  have s': "s' = s\<lparr>app := analysisSettled i (analyzePostRisk parse response) (app s),
                     pendingAnalyses := remove1 i (pendingAnalyses s)\<rparr>"
    using assms(1) by (simp add: assms(2))
  have rejected: "app s' = app s"
    if "response = Rejected \<or> (\<exists>t. response = Fulfilled (Some t) \<and> t \<noteq> [] \<and> parse t = None)"
    using that by (auto simp: s' analyzePostRisk_def analysisSettled_def)
  have fallback: "app s' =
      attachGuardResult i
        \<lparr>isProvocative = False, reasoning = ''Analysis failed.'', manipulationType = None\<rparr> (app s)"
    if "response = Fulfilled None \<or> response = Fulfilled (Some [])"
    using that by (auto simp: s' analyzePostRisk_def analysisSettled_def)
  have frame: "graphData (app s') = graphData (app s)" "isLoadingPost (app s') = isLoadingPost (app s)"
    "length (posts (app s')) = length (posts (app s))"
    by (simp_all add: s' analysisSettled_def attachGuardResult_def split: sum.splits)
  have others: "posts (app s') ! k = posts (app s) ! k" if "post_id (posts (app s) ! k) \<noteq> i"
    using that assms(3) by (simp add: s' analysisSettled_def attachGuardResult_def split: sum.splits)
  have requests: "pendingGenerations s' = pendingGenerations s"
    "pendingAnalyses s' = remove1 i (pendingAnalyses s)"
    by (simp_all add: s')
  from rejected fallback frame others requests show ?thesis
    by blast
qed

theorem analysis_failure_settled_witness:
  "step (\<lambda>t. None) (AnalysisSettled ''p1'' Rejected) (exampleSystem [''p1'']) = exampleSystem [] \<and>
   step (\<lambda>t. None) (AnalysisSettled ''p1'' (Fulfilled (Some ''{''))) (exampleSystem [''p1'']) =
     exampleSystem []"
proof -
  have pending: "''p1'' \<in> set (pendingAnalyses (exampleSystem [''p1'']))"
    by (simp add: exampleSystem_def)
  have feed: "0 < length (posts (app (exampleSystem [''p1''])))"
    by (simp add: exampleSystem_def exampleState_def)
  from analysis_failure_settled [OF pending refl feed, where parse = "\<lambda>t. None" and response = Rejected]
  have "app (step (\<lambda>t. None) (AnalysisSettled ''p1'' Rejected) (exampleSystem [''p1''])) =
          app (exampleSystem [''p1''])"
    and "pendingAnalyses (step (\<lambda>t. None) (AnalysisSettled ''p1'' Rejected) (exampleSystem [''p1''])) = []"
    and "pendingGenerations (step (\<lambda>t. None) (AnalysisSettled ''p1'' Rejected) (exampleSystem [''p1''])) = 0"
    by (simp_all add: exampleSystem_def)
  then have a: "step (\<lambda>t. None) (AnalysisSettled ''p1'' Rejected) (exampleSystem [''p1'']) = exampleSystem []"
    by (simp add: exampleSystem_def)
  from analysis_failure_settled [OF pending refl feed, where parse = "\<lambda>t. None"
      and response = "Fulfilled (Some ''{'')"]
  have "app (step (\<lambda>t. None) (AnalysisSettled ''p1'' (Fulfilled (Some ''{''))) (exampleSystem [''p1''])) =
          app (exampleSystem [''p1''])"
    and "pendingAnalyses (step (\<lambda>t. None) (AnalysisSettled ''p1'' (Fulfilled (Some ''{''))) (exampleSystem [''p1''])) = []"
    and "pendingGenerations (step (\<lambda>t. None) (AnalysisSettled ''p1'' (Fulfilled (Some ''{''))) (exampleSystem [''p1''])) = 0"
    by (simp_all add: exampleSystem_def)
  then have b: "step (\<lambda>t. None) (AnalysisSettled ''p1'' (Fulfilled (Some ''{''))) (exampleSystem [''p1'']) =
      exampleSystem []"
    by (simp add: exampleSystem_def)
  from a b show ?thesis by simp
qed

text \<open>
  The claim as stated fails: when the service answers with no text, which the code itself
  calls a failed analysis, the item does not stay without an annotation.
\<close>

theorem analysis_failure_annotated_counterexample:
  "map guardResult (posts (app (exampleSystem [''p1'']))) = [None] \<and>
   map guardResult
     (posts (app (step (\<lambda>t. None) (AnalysisSettled ''p1'' (Fulfilled None)) (exampleSystem [''p1''])))) =
     [Some \<lparr>isProvocative = False, reasoning = ''Analysis failed.'', manipulationType = None\<rparr>]"
  by (simp add: exampleSystem_def exampleState_def examplePost_def analyzePostRisk_def
      analysisSettled_def attachGuardResult_def)


text \<open>
  Claim C7, where the code departs from it. The observer callback tests the flag of the
  render that installed it. When that render saw the flag cleared and the feed view, a
  visibility trigger issues a request and sets the flag; a second trigger that arrives
  before React has rendered again finds the same closure, passes the same test with the
  flag already set in the state, and issues a second request while the first one is
  pending.
\<close>

theorem pagination_stale_closure:
  assumes "\<not> isLoadingPost (rendered s)"
    and "activePost (rendered s) = None"
  shows "isLoadingPost (app (step parse LoadMoreVisible s)) \<and>
         pendingGenerations (step parse LoadMoreVisible s) = pendingGenerations s + 1 \<and>
         pendingGenerations (step parse LoadMoreVisible (step parse LoadMoreVisible s)) =
           pendingGenerations s + 2"
  using assms by (simp add: loadMoreVisible_def fetchNewPost_def)

text \<open>
  The simulator is started, the first post arrives and is rendered; then the load-more
  region is reported visible twice before the next render.
\<close>

theorem pagination_stale_closure_witness:
  "pendingGenerations
     (run (\<lambda>t. None) [StartSimulator, GenerationSettled (Some (examplePost None)), Rendered]
        (initialSystem \<lparr>nodes = [], links = []\<rparr>)) = 0 \<and>
   isLoadingPost (app
     (run (\<lambda>t. None)
        [StartSimulator, GenerationSettled (Some (examplePost None)), Rendered, LoadMoreVisible]
        (initialSystem \<lparr>nodes = [], links = []\<rparr>))) \<and>
   pendingGenerations
     (run (\<lambda>t. None)
        [StartSimulator, GenerationSettled (Some (examplePost None)), Rendered, LoadMoreVisible,
         LoadMoreVisible]
        (initialSystem \<lparr>nodes = [], links = []\<rparr>)) = 2"
proof -
  let ?s = "run (\<lambda>t. None) [StartSimulator, GenerationSettled (Some (examplePost None)), Rendered]
      (initialSystem \<lparr>nodes = [], links = []\<rparr>)"
  have closure: "\<not> isLoadingPost (rendered ?s)" "activePost (rendered ?s) = None"
    and none: "pendingGenerations ?s = 0"
    by (simp_all add: initialSystem_def fetchNewPost_def fetchNewPost_settled_def render_def)
  from pagination_stale_closure [OF closure, of "\<lambda>t. None"] none
  show ?thesis
    by simp
qed

section \<open>Properties of the layout component\<close>

lemma example_mount: "mount exampleSeed 0 exampleProps = Inr (exampleLayout, [])"
  by (simp add: mount_def initializeSimulation_def missingEndpoint_def freshSimulation_def
      handleLiveUpdates_def reconcileNode_def recentlyUpdated_def exampleProps_def exampleState_def
      exampleNode_def exampleLayout_def exampleSeed_def upt_rec)

lemma example_upvoted:
  "graphData (handleInteraction 5000 Upvote ''r/gaming'' ''p1'' (exampleState 50 None)) = exampleUpvoted"
  by (simp add: handleInteraction_def updateGraphData_def exampleState_def examplePost_def
      exampleNode_def exampleUpvoted_def)

lemma in_set_map_filter:
  "y \<in> set (List.map_filter f xs) \<longleftrightarrow> (\<exists>x \<in> set xs. f x = Some y)"
  by (induction xs) (auto split: option.splits)

lemma reconcileNode_transition:
  "snd (reconcileNode now ns d) = Some t \<longleftrightarrow>
     (\<exists>n. find (\<lambda>n. node_id n = node_id (datum d)) ns = Some n \<and>
        (if recentlyUpdated now n
         then t = (node_id (datum d),
                   Pulse (of_int (val n) * (3 / 2) + 10) (val n) (node_type (datum d)))
         else 10 * \<bar>val (datum d) - val n\<bar> > 1 \<and> t = (node_id (datum d), Resize (val n))))"
  by (auto simp: reconcileNode_def Let_def split: option.splits)

lemma reconcileNode_node:
  "fst (reconcileNode now ns d) =
     (case find (\<lambda>n. node_id n = node_id (datum d)) ns of
        None \<Rightarrow> d
      | Some n \<Rightarrow> d\<lparr>datum := (datum d)\<lparr>val := val n\<rparr>\<rparr>)"
  by (simp add: reconcileNode_def Let_def split: option.splits)

lemma reconcileNode_position: "position (fst (reconcileNode now ns d)) = position d"
  by (simp add: reconcileNode_node split: option.splits)

lemma transitions_handleLiveUpdates:
  assumes "simulationRef l = Some sim"
  shows "t \<in> set (snd (handleLiveUpdates now g l)) \<longleftrightarrow>
           (\<exists>d \<in> set (simNodes sim). snd (reconcileNode now (nodes g) d) = Some t)"
  using assms by (auto simp: handleLiveUpdates_def Let_def in_set_map_filter)

lemma nodePositions_handleLiveUpdates:
  "nodePositions (fst (handleLiveUpdates now g l)) = nodePositions l"
  by (simp add: handleLiveUpdates_def nodePositions_def Let_def comp_def reconcileNode_position
      split: option.splits)

lemma nodeData_handleLiveUpdates:
  "nodeData (fst (handleLiveUpdates now g l)) =
     map (\<lambda>n. case find (\<lambda>m. node_id m = node_id n) (nodes g) of
                 None \<Rightarrow> n
               | Some m \<Rightarrow> n\<lparr>val := val m\<rparr>) (nodeData l)"
  by (auto simp: handleLiveUpdates_def nodeData_def Let_def reconcileNode_node
      split: option.splits)


lemma distinct_key_unique:
  assumes "distinct (map f xs)" and "e \<in> set xs" and "k < length xs" and "f e = f (xs ! k)"
  shows "e = xs ! k"
proof -
  from assms(1) have "inj_on f (set xs)"
    by (simp add: distinct_map)
  with assms(2-4) show ?thesis
    by (auto dest: inj_onD)
qed

text \<open>
  The transitions of one run of the live-update effect, for the node at position \<open>k\<close>
  of the simulation, with identity \<open>i\<close>: a pulse is scheduled on its circle exactly
  when the props hold a node of that identity whose stamp passes the recency test, and
  the pulse goes to one and a half times the new weight plus 10 and settles at the new
  weight; a passive resize is scheduled on it only when that stamp is not recent, and then
  no pulse is; a changed weight without a recent stamp gets the passive resize. A node on
  whose circle nothing is scheduled keeps its record as it was. With identities unique in
  the simulation, something is scheduled on the node's circle exactly when its own stamp
  is recent or its own weight has changed: the pulse of one node schedules no transition
  on another. Where the nodes are drawn afterwards is not part of this statement: see
  the lemma on the restart below.
\<close>

lemma live_update_transitions:
  assumes "simulationRef l = Some sim"
    and "k < length (simNodes sim)"
    and "i = node_id (datum (simNodes sim ! k))"
    and "trs = snd (handleLiveUpdates now g l)"
    and "l' = fst (handleLiveUpdates now g l)"
  shows "((\<exists>peak r ty. (i, Pulse peak r ty) \<in> set trs) \<longleftrightarrow>
            (\<exists>n. find (\<lambda>n. node_id n = i) (nodes g) = Some n \<and> recentlyUpdated now n)) \<and>
         (\<forall>peak r ty. (i, Pulse peak r ty) \<in> set trs \<longrightarrow>
            (\<exists>n. find (\<lambda>n. node_id n = i) (nodes g) = Some n \<and> r = val n) \<and>
            peak = of_int r * (3 / 2) + 10 \<and> (0 \<le> r \<longrightarrow> of_int r < peak)) \<and>
         (\<forall>r. (i, Resize r) \<in> set trs \<longrightarrow>
            (\<exists>n. find (\<lambda>n. node_id n = i) (nodes g) = Some n \<and> \<not> recentlyUpdated now n \<and> r = val n) \<and>
            \<not> (\<exists>peak r' ty. (i, Pulse peak r' ty) \<in> set trs)) \<and>
         (\<forall>n. find (\<lambda>n. node_id n = i) (nodes g) = Some n \<and> \<not> recentlyUpdated now n \<and>
              val n \<noteq> val (datum (simNodes sim ! k)) \<longrightarrow> (i, Resize (val n)) \<in> set trs) \<and>
         length (nodeData l') = length (nodeData l) \<and>
         ((\<forall>t. (i, t) \<notin> set trs) \<longrightarrow> nodeData l' ! k = nodeData l ! k) \<and>
         (distinct (map (\<lambda>e. node_id (datum e)) (simNodes sim)) \<longrightarrow>
            ((\<exists>t. (i, t) \<in> set trs) \<longleftrightarrow>
               (\<exists>n. find (\<lambda>n. node_id n = i) (nodes g) = Some n \<and>
                  (recentlyUpdated now n \<or> val n \<noteq> val (datum (simNodes sim ! k))))))"
proof -
  let ?d = "simNodes sim ! k"
  let ?recent = "\<exists>n. find (\<lambda>n. node_id n = i) (nodes g) = Some n \<and> recentlyUpdated now n"
  from assms(2) have d_in: "?d \<in> set (simNodes sim)"
    by simp
  note mem = transitions_handleLiveUpdates [OF assms(1), of _ now g, folded assms(4)]
  have pulse: "(\<exists>peak r ty. (i, Pulse peak r ty) \<in> set trs) \<longleftrightarrow> ?recent"
  proof
    assume "\<exists>peak r ty. (i, Pulse peak r ty) \<in> set trs"
    then obtain peak r ty e where "e \<in> set (simNodes sim)"
      and "snd (reconcileNode now (nodes g) e) = Some (i, Pulse peak r ty)"
      by (auto simp: mem)
    then show ?recent
      by (auto simp: reconcileNode_transition split: if_splits)
  next
    assume ?recent
    then obtain n where n: "find (\<lambda>n. node_id n = i) (nodes g) = Some n" "recentlyUpdated now n"
      by blast
    then have "snd (reconcileNode now (nodes g) ?d) =
        Some (i, Pulse (of_int (val n) * (3 / 2) + 10) (val n) (node_type (datum ?d)))"
      by (simp add: reconcileNode_transition assms(3))
    with d_in have "(i, Pulse (of_int (val n) * (3 / 2) + 10) (val n) (node_type (datum ?d))) \<in> set trs"
      unfolding mem by blast
    then show "\<exists>peak r ty. (i, Pulse peak r ty) \<in> set trs"
      by blast
  qed
  have shape: "(\<exists>n. find (\<lambda>n. node_id n = i) (nodes g) = Some n \<and> r = val n) \<and>
      peak = of_int r * (3 / 2) + 10 \<and> (0 \<le> r \<longrightarrow> of_int r < peak)"
    if "(i, Pulse peak r ty) \<in> set trs" for peak r ty
  proof -
    from that obtain e where "e \<in> set (simNodes sim)"
      and "snd (reconcileNode now (nodes g) e) = Some (i, Pulse peak r ty)"
      by (auto simp: mem)
    then have "(\<exists>n. find (\<lambda>n. node_id n = i) (nodes g) = Some n \<and> r = val n) \<and>
        peak = of_int r * (3 / 2) + 10"
      by (auto simp: reconcileNode_transition split: if_splits)
    moreover have "(of_int r :: rat) < of_int r * (3 / 2) + 10" if "0 \<le> r"
    proof -
      from that have "(0 :: rat) \<le> of_int r"
        by simp
      then show ?thesis
        by simp
    qed
    ultimately show ?thesis
      by simp
  qed
  have resize: "(\<exists>n. find (\<lambda>n. node_id n = i) (nodes g) = Some n \<and> \<not> recentlyUpdated now n \<and> r = val n) \<and>
      \<not> (\<exists>peak r' ty. (i, Pulse peak r' ty) \<in> set trs)"
    if "(i, Resize r) \<in> set trs" for r
  proof -
    from that obtain e where "e \<in> set (simNodes sim)"
      and "snd (reconcileNode now (nodes g) e) = Some (i, Resize r)"
      by (auto simp: mem)
    then have "\<exists>n. find (\<lambda>n. node_id n = i) (nodes g) = Some n \<and> \<not> recentlyUpdated now n \<and> r = val n"
      by (auto simp: reconcileNode_transition split: if_splits)
    then show ?thesis
      unfolding pulse by auto
  qed
  have changed: "(i, Resize (val n)) \<in> set trs"
    if "find (\<lambda>n. node_id n = i) (nodes g) = Some n" and "\<not> recentlyUpdated now n"
      and "val n \<noteq> val (datum ?d)" for n
  proof -
    from that(3) have "1 < 10 * \<bar>val (datum ?d) - val n\<bar>"
      by arith
    with that have "snd (reconcileNode now (nodes g) ?d) = Some (i, Resize (val n))"
      by (simp add: reconcileNode_transition assms(3))
    with d_in show ?thesis
      unfolding mem by blast
  qed
  have len: "length (nodeData l') = length (nodeData l)"
    by (simp add: assms(5) nodeData_handleLiveUpdates)
  have nd: "nodeData l = map datum (simNodes sim)"
    by (simp add: nodeData_def assms(1))
  have untouched: "nodeData l' ! k = nodeData l ! k" if none: "\<forall>t. (i, t) \<notin> set trs"
  proof (cases "find (\<lambda>n. node_id n = i) (nodes g)")
    case None
    with assms(2) show ?thesis
      by (simp add: assms(3,5) nodeData_handleLiveUpdates nd)
  next
    case (Some n)
    from none pulse have "\<not> recentlyUpdated now n"
      using Some by auto
    with changed [OF Some] none have "val n = val (datum ?d)"
      by auto
    with Some assms(2) show ?thesis
      by (simp add: assms(3,5) nodeData_handleLiveUpdates nd)
  qed
  have own: "(\<exists>t. (i, t) \<in> set trs) \<longleftrightarrow>
      (\<exists>n. find (\<lambda>n. node_id n = i) (nodes g) = Some n \<and>
         (recentlyUpdated now n \<or> val n \<noteq> val (datum ?d)))"
    if unique: "distinct (map (\<lambda>e. node_id (datum e)) (simNodes sim))"
  proof
    assume "\<exists>t. (i, t) \<in> set trs"
    then obtain t e where e: "e \<in> set (simNodes sim)"
      and t: "snd (reconcileNode now (nodes g) e) = Some (i, t)"
      by (auto simp: mem)
    from t have "node_id (datum e) = i"
      by (auto simp: reconcileNode_transition split: if_splits)
    with unique e assms(2) have "e = ?d"
      by (intro distinct_key_unique [where f = "\<lambda>e. node_id (datum e)"]) (simp_all add: assms(3))
    with t show "\<exists>n. find (\<lambda>n. node_id n = i) (nodes g) = Some n \<and>
        (recentlyUpdated now n \<or> val n \<noteq> val (datum ?d))"
      by (auto simp: reconcileNode_transition assms(3) split: if_splits)
  next
    assume "\<exists>n. find (\<lambda>n. node_id n = i) (nodes g) = Some n \<and>
        (recentlyUpdated now n \<or> val n \<noteq> val (datum ?d))"
    then obtain n where n: "find (\<lambda>n. node_id n = i) (nodes g) = Some n"
      and "recentlyUpdated now n \<or> val n \<noteq> val (datum ?d)"
      by blast
    then show "\<exists>t. (i, t) \<in> set trs"
      using pulse changed [OF n] by blast
  qed
  from pulse shape resize changed len untouched own show ?thesis
    by blast
qed

lemma live_update_transitions_example:
  "(\<exists>peak r ty. (''r/gaming'', Pulse peak r ty) \<in> set (snd (handleLiveUpdates 5400 exampleUpvoted exampleLayout))) \<and>
   (\<forall>t. (''r/pics'', t) \<notin> set (snd (handleLiveUpdates 5400 exampleUpvoted exampleLayout))) \<and>
   nodeData (fst (handleLiveUpdates 5400 exampleUpvoted exampleLayout)) ! 1 = exampleNode ''r/pics'' 40"
proof -
  let ?sim = "\<lparr>simNodes = [\<lparr>datum = exampleNode ''r/gaming'' 50, position = (0, 0)\<rparr>,
                     \<lparr>datum = exampleNode ''r/pics'' 40, position = (10, 0)\<rparr>],
         simLinks = [], collideRadius = [58, 48], alpha = 1, running = True\<rparr> :: (int \<times> int) simulation"
  have ref: "simulationRef exampleLayout = Some ?sim"
    by (simp add: exampleLayout_def)
  have trs: "snd (handleLiveUpdates 5400 exampleUpvoted exampleLayout) =
      [(''r/gaming'', Pulse (245 / 2) 75 Subreddit)]"
    by (simp add: handleLiveUpdates_def reconcileNode_def recentlyUpdated_def exampleLayout_def
        exampleUpvoted_def exampleNode_def)
  have recent: "\<exists>n. find (\<lambda>n. node_id n = ''r/gaming'') (nodes exampleUpvoted) = Some n \<and>
      recentlyUpdated 5400 n"
    by (simp add: exampleUpvoted_def exampleNode_def recentlyUpdated_def)
  from live_update_transitions [OF ref _ refl refl refl, of 0 5400 exampleUpvoted] recent
  have a: "\<exists>peak r ty. (''r/gaming'', Pulse peak r ty) \<in> set (snd (handleLiveUpdates 5400 exampleUpvoted exampleLayout))"
    by (simp add: exampleNode_def)
  have c: "\<forall>t. (''r/pics'', t) \<notin> set (snd (handleLiveUpdates 5400 exampleUpvoted exampleLayout))"
    by (simp add: trs)
  from live_update_transitions [OF ref _ refl refl refl, of 1 5400 exampleUpvoted] c
  have d: "nodeData (fst (handleLiveUpdates 5400 exampleUpvoted exampleLayout)) ! 1 = nodeData exampleLayout ! 1"
    by (simp add: exampleNode_def)
  from a c d show ?thesis
    by (simp add: nodeData_def exampleLayout_def)
qed

text \<open>
  Several nodes can pass the recency test in the same run, and each of them is pulsed:
  here \<^verbatim>\<open>r/pics\<close> was stamped at 4800 and \<^verbatim>\<open>r/gaming\<close> at 5000, and the effect
  runs at 5400.
\<close>

lemma two_recent_nodes_pulse:
  "snd (handleLiveUpdates 5400
     \<lparr>nodes = [(exampleNode ''r/gaming'' 75)\<lparr>lastUpdated := Some 5000\<rparr>,
               (exampleNode ''r/pics'' 40)\<lparr>lastUpdated := Some 4800\<rparr>], links = []\<rparr>
     exampleLayout) =
   [(''r/gaming'', Pulse (245 / 2) 75 Subreddit), (''r/pics'', Pulse 70 40 Subreddit)]"
  by (simp add: handleLiveUpdates_def reconcileNode_def recentlyUpdated_def exampleLayout_def
      exampleNode_def)

text \<open>
  A run that schedules a transition, be it for one node only, also sets the collide force
  again, from the weights the nodes now have, and restarts the simulation as a whole at
  \<^verbatim>\<open>alpha\<close> 0.3. From then on d3 integrates its forces over all nodes at every
  animation frame and the tick handler of the component redraws every node at the
  position d3 gives it. That integration is floating-point code of d3, not of the
  component, and is not modelled: \<^const>\<open>handleLiveUpdates\<close> describes the simulation
  as the effect leaves it, before the next tick.
\<close>

lemma live_update_reheats:
  assumes "simulationRef l = Some sim" and "snd (handleLiveUpdates now g l) \<noteq> []"
  shows "\<exists>sim'. simulationRef (fst (handleLiveUpdates now g l)) = Some sim' \<and>
           alpha sim' = 3 / 10 \<and> running sim' \<and>
           collideRadius sim' = map (\<lambda>n. val n + 8) (nodeData (fst (handleLiveUpdates now g l)))"
  using assms by (simp add: handleLiveUpdates_def nodeData_def Let_def comp_def)


lemma nodePositions_freshSimulation:
  "map position (simNodes (freshSimulation seed g)) = map seed [0..<length (nodes g)]"
  by (simp add: freshSimulation_def comp_def)

lemma node_ids_handleLiveUpdates:
  "map node_id (nodeData (fst (handleLiveUpdates now g l))) = map node_id (nodeData l)"
  by (simp add: nodeData_handleLiveUpdates comp_def split: option.splits)

lemma reseeds_handleLiveUpdates: "reseeds (fst (handleLiveUpdates now g l)) = reseeds l"
  by (simp add: handleLiveUpdates_def Let_def split: option.splits)

lemma reseeds_runCleanup: "reseeds (runCleanup l) = reseeds l"
  by (simp add: runCleanup_def)

lemma nodePositions_runCleanup: "nodePositions (runCleanup l) = nodePositions l"
  by (simp add: runCleanup_def nodePositions_def split: option.splits)

text \<open>
  Claim C3, as the code has it. A render with new props, the links of which refer to
  nodes when a simulation is to be built, completes. It builds a new simulation, with
  every node at its seed position, exactly when the node count, the link count, the
  width or the height differs from the previous render and the new node list is not
  empty. When none of the four differs, no simulation is built, every position is kept,
  and the render is the live update of the existing simulation (when the data object is
  a new one) or nothing at all.
\<close>

theorem reseed_on_topology_deps:
  assumes "topologyDepsChanged prev cur \<and> nodes (data cur) \<noteq> [] \<longrightarrow> missingEndpoint (data cur) = None"
  shows "\<exists>l' trs. rerender seed now prev cur l = Inr (l', trs) \<and>
           reseeds l' =
             (if topologyDepsChanged prev cur \<and> nodes (data cur) \<noteq> []
              then Suc (reseeds l) else reseeds l) \<and>
           (topologyDepsChanged prev cur \<and> nodes (data cur) \<noteq> [] \<longrightarrow>
              nodePositions l' = map seed [0..<length (nodes (data cur))] \<and>
              map node_id (nodeData l') = map node_id (nodes (data cur))) \<and>
           (\<not> topologyDepsChanged prev cur \<longrightarrow>
              nodePositions l' = nodePositions l \<and>
              (l', trs) =
                (if dataRef prev \<noteq> dataRef cur then handleLiveUpdates now (data cur) l
                 else (l, [])))"
proof (cases "topologyDepsChanged prev cur")
  case False
  then have "rerender seed now prev cur l =
      Inr (if dataRef prev \<noteq> dataRef cur then handleLiveUpdates now (data cur) l else (l, []))"
    by (simp add: rerender_def)
  moreover obtain l' trs where lt:
    "(if dataRef prev \<noteq> dataRef cur then handleLiveUpdates now (data cur) l else (l, [])) = (l', trs)"
    by (cases "if dataRef prev \<noteq> dataRef cur then handleLiveUpdates now (data cur) l else (l, [])")
  moreover from lt
  have l': "l' = (if dataRef prev \<noteq> dataRef cur then fst (handleLiveUpdates now (data cur) l) else l)"
    by (auto split: if_splits)
  have "reseeds l' = reseeds l" and "nodePositions l' = nodePositions l"
    by (simp_all add: l' reseeds_handleLiveUpdates nodePositions_handleLiveUpdates)
  ultimately show ?thesis
    using False by simp
next
  case True
  show ?thesis
  proof (cases "nodes (data cur) = []")
    case True
    let ?l1 = "runCleanup l"
    from True \<open>topologyDepsChanged prev cur\<close>
    have r: "rerender seed now prev cur l =
        Inr (if dataRef prev \<noteq> dataRef cur then handleLiveUpdates now (data cur) ?l1 else (?l1, []))"
      by (simp add: rerender_def initializeSimulation_def)
    obtain l' trs where lt:
      "(if dataRef prev \<noteq> dataRef cur then handleLiveUpdates now (data cur) ?l1 else (?l1, [])) = (l', trs)"
      by (cases "if dataRef prev \<noteq> dataRef cur then handleLiveUpdates now (data cur) ?l1 else (?l1, [])")
    then have "l' = (if dataRef prev \<noteq> dataRef cur then fst (handleLiveUpdates now (data cur) ?l1) else ?l1)"
      by (auto split: if_splits)
    then have "reseeds l' = reseeds l"
      by (simp add: reseeds_handleLiveUpdates reseeds_runCleanup)
    with r lt True \<open>topologyDepsChanged prev cur\<close> show ?thesis
      by simp
  next
    case False
    let ?l1 = "(runCleanup l)\<lparr>simulationRef := Some (freshSimulation seed (data cur)),
        cleanup := True, reseeds := Suc (reseeds (runCleanup l))\<rparr>"
    from False \<open>topologyDepsChanged prev cur\<close> assms
    have r: "rerender seed now prev cur l =
        Inr (if dataRef prev \<noteq> dataRef cur then handleLiveUpdates now (data cur) ?l1 else (?l1, []))"
      by (simp add: rerender_def initializeSimulation_def)
    obtain l' trs where lt:
      "(if dataRef prev \<noteq> dataRef cur then handleLiveUpdates now (data cur) ?l1 else (?l1, [])) = (l', trs)"
      by (cases "if dataRef prev \<noteq> dataRef cur then handleLiveUpdates now (data cur) ?l1 else (?l1, [])")
    then have l': "l' = (if dataRef prev \<noteq> dataRef cur then fst (handleLiveUpdates now (data cur) ?l1) else ?l1)"
      by (auto split: if_splits)
    have fresh_pos: "nodePositions ?l1 = map seed [0..<length (nodes (data cur))]"
      by (simp add: nodePositions_def nodePositions_freshSimulation)
    have fresh_ids: "map node_id (nodeData ?l1) = map node_id (nodes (data cur))"
      by (simp add: nodeData_def freshSimulation_def comp_def map_nth)
    have "reseeds l' = Suc (reseeds l)"
      by (simp add: l' reseeds_handleLiveUpdates reseeds_runCleanup)
    moreover have "nodePositions l' = map seed [0..<length (nodes (data cur))]"
      using fresh_pos by (simp add: l' nodePositions_handleLiveUpdates)
    moreover have "map node_id (nodeData l') = map node_id (nodes (data cur))"
      using fresh_ids by (simp add: l' node_ids_handleLiveUpdates)
    ultimately show ?thesis
      using r lt False \<open>topologyDepsChanged prev cur\<close> by simp
  qed
qed


theorem reseed_on_topology_deps_witness:
  "(\<exists>l' trs. rerender exampleSeed 5400 exampleProps
        \<lparr>data = exampleUpvoted, dataRef = 1, width = 800, height = 800\<rparr> driftedLayout = Inr (l', trs) \<and>
      reseeds l' = 1 \<and> nodePositions l' = [(3, 4), (15, - 2)]) \<and>
   (\<exists>l' trs. rerender exampleSeed 5400 exampleProps
        \<lparr>data = exampleUpvoted, dataRef = 1, width = 800, height = 400\<rparr> driftedLayout = Inr (l', trs) \<and>
      reseeds l' = 2 \<and> nodePositions l' = [(0, 0), (10, 0)])"
proof -
  let ?same = "\<lparr>data = exampleUpvoted, dataRef = 1, width = 800, height = 800\<rparr>"
  let ?resized = "\<lparr>data = exampleUpvoted, dataRef = 1, width = 800, height = 400\<rparr>"
  have same: "\<not> topologyDepsChanged exampleProps ?same"
    by (simp add: topologyDepsChanged_def exampleProps_def exampleState_def exampleUpvoted_def)
  have resized: "topologyDepsChanged exampleProps ?resized" "nodes (data ?resized) \<noteq> []"
    "missingEndpoint (data ?resized) = None"
    by (simp_all add: topologyDepsChanged_def exampleProps_def exampleUpvoted_def missingEndpoint_def)
  have drifted: "reseeds driftedLayout = 1" "nodePositions driftedLayout = [(3, 4), (15, - 2)]"
    by (simp_all add: driftedLayout_def nodePositions_def)
  have seeds: "map exampleSeed [0..<length (nodes (data ?resized))] = [(0, 0), (10, 0)]"
    by (simp add: exampleUpvoted_def exampleSeed_def upt_rec)
  from reseed_on_topology_deps [where prev = exampleProps and cur = ?same and seed = exampleSeed
      and now = 5400 and l = driftedLayout] same drifted
  have a: "\<exists>l' trs. rerender exampleSeed 5400 exampleProps ?same driftedLayout = Inr (l', trs) \<and>
      reseeds l' = 1 \<and> nodePositions l' = [(3, 4), (15, - 2)]"
    by auto
  from reseed_on_topology_deps [where prev = exampleProps and cur = ?resized and seed = exampleSeed
      and now = 5400 and l = driftedLayout] resized drifted seeds
  have b: "\<exists>l' trs. rerender exampleSeed 5400 exampleProps ?resized driftedLayout = Inr (l', trs) \<and>
      reseeds l' = 2 \<and> nodePositions l' = [(0, 0), (10, 0)]"
    by auto
  from a b show ?thesis
    by blast
qed

text \<open>
  The claim as stated fails in both directions. With the node and link counts unchanged,
  a change of the width alone discards the positions and builds a new simulation; and a
  change of the node count to zero builds none: the old simulation is stopped and keeps
  its nodes where they are.
\<close>

theorem reseed_counts_counterexample:
  "rerender exampleSeed 5400 exampleProps (exampleProps\<lparr>width := 400\<rparr>) driftedLayout =
     Inr (exampleLayout\<lparr>reseeds := 2\<rparr>, []) \<and>
   length (nodes (data (exampleProps\<lparr>width := 400\<rparr>))) = length (nodes (data exampleProps)) \<and>
   length (links (data (exampleProps\<lparr>width := 400\<rparr>))) = length (links (data exampleProps)) \<and>
   nodePositions driftedLayout = [(3, 4), (15, - 2)] \<and>
   nodePositions (exampleLayout\<lparr>reseeds := 2\<rparr>) = [(0, 0), (10, 0)] \<and>
   rerender exampleSeed 5400 exampleProps
       \<lparr>data = \<lparr>nodes = [], links = []\<rparr>, dataRef = 1, width = 800, height = 800\<rparr> driftedLayout =
     Inr (driftedLayout\<lparr>simulationRef :=
            map_option (\<lambda>sim. sim\<lparr>running := False\<rparr>) (simulationRef driftedLayout),
          cleanup := False\<rparr>, []) \<and>
   length (nodes (data exampleProps)) = 2"
  by (simp add: rerender_def topologyDepsChanged_def runCleanup_def initializeSimulation_def
      missingEndpoint_def freshSimulation_def handleLiveUpdates_def reconcileNode_def
      nodePositions_def exampleProps_def exampleState_def exampleNode_def exampleLayout_def
      driftedLayout_def exampleSeed_def upt_rec)

end
